theory Spec2Isabelle
  imports Complex_Main
begin

section \<open>Sparse Clenshaw--Curtis quadrature: embedding of \<^verbatim>\<open>sparse_clenshaw_curtis.py\<close>\<close>

text \<open>
  Python integers are modelled as \<^typ>\<open>int\<close>, Python and numpy floats as \<^typ>\<open>real\<close>
  (exact arithmetic, no rounding), tuples and one-dimensional arrays as lists, and a raised
  exception as the left summand of a sum type.
\<close>

subsection \<open>Values and exceptions\<close>

text \<open>The exceptions the module can raise, with the class that Python reports.\<close>

datatype exn =
    ValueError string
  | TypeError string
  | AxisError

text \<open>
  An interval endpoint as the caller may pass it: an \<^verbatim>\<open>int\<close> or a \<^verbatim>\<open>float\<close>.
  The test \<^verbatim>\<open>type(a) == type(b) == int\<close> tells them apart.
\<close>

datatype pynum = PyInt int | PyFloat real

fun num_val :: "pynum \<Rightarrow> real" where
  "num_val (PyInt i) = real_of_int i"
| "num_val (PyFloat x) = x"

fun is_int :: "pynum \<Rightarrow> bool" where
  "is_int (PyInt i) = True"
| "is_int (PyFloat x) = False"

text \<open>Python compares an \<^verbatim>\<open>int\<close> with a \<^verbatim>\<open>float\<close> by value.\<close>

definition num_lt :: "pynum \<Rightarrow> pynum \<Rightarrow> bool" where
  "num_lt a b = (num_val a < num_val b)"

type_synonym rule1d = "real list \<times> real list"
type_synonym provider = "int \<Rightarrow> exn + rule1d"

subsection \<open>Library functions used by the module\<close>

text \<open>
  \<^verbatim>\<open>itertools.product(*xss)\<close> is \<^const>\<open>product_lists\<close>: the first component varies
  slowest, and the product of no lists is the one empty tuple.
  \<^verbatim>\<open>itertools.product(xs, repeat=n)\<close> raises for a negative \<^verbatim>\<open>n\<close>.
\<close>

definition product_repeat :: "'a list \<Rightarrow> int \<Rightarrow> exn + 'a list list" where
  "product_repeat xs n =
     (if n < 0 then Inl (ValueError ''repeat argument cannot be negative'')
      else Inr (product_lists (replicate (nat n) xs)))"

text \<open>\<^verbatim>\<open>math.comb(n, k)\<close> raises for a negative argument and is zero for \<^verbatim>\<open>k > n\<close>.\<close>

definition comb :: "int \<Rightarrow> int \<Rightarrow> exn + int" where
  "comb n k =
     (if n < 0 then Inl (ValueError ''n must be a non-negative integer'')
      else if k < 0 then Inl (ValueError ''k must be a non-negative integer'')
      else Inr (int (nat n choose nat k)))"

text \<open>Collecting the results of a list comprehension whose body may raise: the first
  exception in list order is the one that propagates.\<close>

fun collect :: "(exn + 'a) list \<Rightarrow> exn + 'a list" where
  "collect [] = Inr []"
| "collect (r # rs) =
     (case r of
        Inl e \<Rightarrow> Inl e
      | Inr v \<Rightarrow> (case collect rs of Inl e \<Rightarrow> Inl e | Inr vs \<Rightarrow> Inr (v # vs)))"

subsection \<open>\<^verbatim>\<open>index_set\<close>\<close>

definition index_set :: "int \<Rightarrow> int \<Rightarrow> exn + int list list" where
  "index_set ndim level =
     (case product_repeat [1..level + ndim] ndim of
        Inl e \<Rightarrow> Inl e
      | Inr tuples \<Rightarrow>
          Inr (filter (\<lambda>idx. level + 1 \<le> sum_list idx \<and> sum_list idx \<le> level + ndim) tuples))"

subsection \<open>\<^verbatim>\<open>closed_non_linear_growth_rule\<close> and \<^verbatim>\<open>clenshaw_curtis_rule\<close>\<close>

definition closed_non_linear_growth_rule :: "int \<Rightarrow> exn + int" where
  "closed_non_linear_growth_rule level =
     (if level < 1 then Inl (ValueError ''Level must be >= 1 for Sparse Grid.'')
      else if level = 1 then Inr 1
      else Inr (2 ^ nat (level - 1) + 1))"

text \<open>
  The nodes and weights come from \<^verbatim>\<open>modepy\<close>, which is not part of the repository:
  \<open>make_cc\<close> stands for \<^verbatim>\<open>_make_clenshaw_curtis_nodes_and_weights\<close> and is a parameter.
\<close>

definition clenshaw_curtis_rule :: "provider \<Rightarrow> int \<Rightarrow> exn + rule1d" where
  "clenshaw_curtis_rule make_cc level =
     (case closed_non_linear_growth_rule level of
        Inl e \<Rightarrow> Inl e
      | Inr m \<Rightarrow> make_cc m)"

subsection \<open>\<^verbatim>\<open>tensor_product_rule\<close>\<close>

text \<open>
  \<^verbatim>\<open>np.prod(np.array(list(product(*wts_1d))), axis=1)\<close>: the array of an empty list has
  one axis only, so asking for axis 1 raises; otherwise each row is multiplied out.
\<close>

definition prod_rows :: "real list list \<Rightarrow> exn + real list" where
  "prod_rows rows = (if rows = [] then Inl AxisError else Inr (map prod_list rows))"

definition tensor_product_rule ::
  "int list \<Rightarrow> provider \<Rightarrow> pynum \<Rightarrow> pynum \<Rightarrow> exn + (real list list \<times> real list)" where
  "tensor_product_rule indices one_d_rule a b =
     (if \<not> num_lt a b then Inl (ValueError ''Empty interval. Check if a < b...!'')
      else if \<not> (is_int a \<and> is_int b) then
        Inl (TypeError ''Interval boundaries need to be integers.'')
      else
        case collect (map (\<lambda>l. map_sum id fst (one_d_rule l)) indices) of
          Inl e \<Rightarrow> Inl e
        | Inr pts_1d \<Rightarrow>
           (case collect (map (\<lambda>l. map_sum id snd (one_d_rule l)) indices) of
              Inl e \<Rightarrow> Inl e
            | Inr wts_1d \<Rightarrow>
               (case prod_rows (product_lists wts_1d) of
                  Inl e \<Rightarrow> Inl e
                | Inr weights \<Rightarrow>
                    if \<not> (num_val a = - 1 \<and> num_val b = 1) then
                      Inr (map (map (\<lambda>x. (num_val b - num_val a) / 2 * x
                                            + (num_val a + num_val b) / 2))
                             (product_lists pts_1d),
                           map (\<lambda>w. w * ((num_val b - num_val a) / 2) ^ length indices)
                             weights)
                    else Inr (product_lists pts_1d, weights))))"

subsection \<open>\<^verbatim>\<open>sparse_grid_nodes_weights\<close>\<close>

text \<open>The coefficient of line 174; the exponent is never negative where
  \<^const>\<open>comb\<close> returns, so the power is an integer power.\<close>

definition smolyak_coeff :: "int \<Rightarrow> int \<Rightarrow> int list \<Rightarrow> exn + int" where
  "smolyak_coeff ndim level idx =
     (case comb (ndim - 1) (level + ndim - sum_list idx) of
        Inl e \<Rightarrow> Inl e
      | Inr c \<Rightarrow> Inr ((- 1) ^ nat (level + ndim - sum_list idx) * c))"

text \<open>The loop over the index set, with the two accumulating lists as state.\<close>

fun sparse_loop ::
  "provider \<Rightarrow> int \<Rightarrow> int \<Rightarrow> pynum \<Rightarrow> pynum \<Rightarrow> real list list \<times> real list \<Rightarrow>
   int list list \<Rightarrow> exn + (real list list \<times> real list)" where
  "sparse_loop make_cc ndim level a b acc [] = Inr acc"
| "sparse_loop make_cc ndim level a b acc (idx # rest) =
     (case smolyak_coeff ndim level idx of
        Inl e \<Rightarrow> Inl e
      | Inr coeff \<Rightarrow>
         (case tensor_product_rule idx (clenshaw_curtis_rule make_cc) a b of
            Inl e \<Rightarrow> Inl e
          | Inr (x, w) \<Rightarrow>
              sparse_loop make_cc ndim level a b
                (fst acc @ map fst (zip x w),
                 snd acc @ map (\<lambda>(xi, wi). real_of_int coeff * wi) (zip x w))
                rest))"

definition sparse_grid_nodes_weights ::
  "provider \<Rightarrow> int \<Rightarrow> int \<Rightarrow> pynum \<Rightarrow> pynum \<Rightarrow> exn + (real list list \<times> real list)" where
  "sparse_grid_nodes_weights make_cc ndim level a b =
     (case index_set ndim level of
        Inl e \<Rightarrow> Inl e
      | Inr ixs \<Rightarrow> sparse_loop make_cc ndim level a b ([], []) ixs)"


subsection \<open>Auxiliary notions used in the proofs\<close>

text \<open>
  The signed binomial weight that a tuple with component sum \<open>s\<close> receives when the
  combination runs over \<open>d\<close> dimensions up to total \<open>q\<close>, and its sum over all
  \<open>d\<close>-tuples with components in \<open>[1, N]\<close>.
\<close>

definition psi :: "nat \<Rightarrow> int \<Rightarrow> int \<Rightarrow> int" where
  "psi d q s = (if s \<le> q then (- 1) ^ nat (q - s) * int ((d - 1) choose nat (q - s)) else 0)"

definition coeff_total :: "int \<Rightarrow> nat \<Rightarrow> int \<Rightarrow> int" where
  "coeff_total N d q =
     sum_list (map (\<lambda>idx. psi d q (sum_list idx)) (product_lists (replicate d [1..N])))"

text \<open>
  Modelled from the spec: the one-dimensional provider (\<^verbatim>\<open>modepy\<close>) is outside the
  repository. By section 4.2 of the specification it returns, for a point count \<open>m\<close>,
  \<open>m\<close> nodes on \<open>[-1, 1]\<close>, symmetric about 0 and with both endpoints when \<open>m \<ge> 2\<close>,
  and \<open>m\<close> weights that sum to 2. The two smallest Clenshaw--Curtis rules, the midpoint
  rule and Simpson's rule, are tabulated here for evaluating the functions at concrete
  inputs; no other point count is tabulated.
\<close>

definition cc_table :: provider where
  "cc_table m =
     (if m = 1 then Inr ([0], [2])
      else if m = 3 then Inr ([1, 0, - 1], [1 / 3, 4 / 3, 1 / 3])
      else Inl (ValueError ''point count not tabulated''))"

section \<open>Properties\<close>

subsection \<open>Shape of the index set\<close>

lemma index_set_Inr:
  "0 \<le> ndim \<Longrightarrow> index_set ndim level =
     Inr (filter (\<lambda>idx. level + 1 \<le> sum_list idx \<and> sum_list idx \<le> level + ndim)
            (product_lists (replicate (nat ndim) [1..level + ndim])))"
  by (simp add: index_set_def product_repeat_def)

lemma set_product_lists_replicate:
  "set (product_lists (replicate n xs)) = {ys. length ys = n \<and> set ys \<subseteq> set xs}"
proof (induction n)
  case 0
  show ?case by auto
next
  case (Suc n)
  show ?case
  proof (rule set_eqI)
    fix ys :: "'a list"
    show "ys \<in> set (product_lists (replicate (Suc n) xs)) \<longleftrightarrow>
          ys \<in> {ys. length ys = Suc n \<and> set ys \<subseteq> set xs}"
      using Suc.IH by (cases ys) auto
  qed
qed

lemma distinct_product_lists_replicate:
  "distinct xs \<Longrightarrow> distinct (product_lists (replicate n xs))"
  by (rule distinct_product_lists) simp

text \<open>
  C2. For \<open>ndim \<ge> 1\<close> and \<open>level \<ge> 1\<close>, \<^verbatim>\<open>index_set\<close> returns, each once, exactly the
  tuples of \<open>ndim\<close> integers that all lie in \<open>[1, level + ndim]\<close> and whose sum \<open>s\<close>
  satisfies \<open>level + 1 \<le> s \<le> level + ndim\<close>.
\<close>

theorem index_set_characterisation:
  assumes "1 \<le> ndim" and "1 \<le> level"
  shows "\<exists>ixs. index_set ndim level = Inr ixs \<and> distinct ixs \<and>
           set ixs = {idx. length idx = nat ndim \<and>
                           (\<forall>i \<in> set idx. 1 \<le> i \<and> i \<le> level + ndim) \<and>
                           level + 1 \<le> sum_list idx \<and> sum_list idx \<le> level + ndim}"
proof -
  let ?ixs = "filter (\<lambda>idx. level + 1 \<le> sum_list idx \<and> sum_list idx \<le> level + ndim)
                (product_lists (replicate (nat ndim) [1..level + ndim]))"
  have r: "index_set ndim level = Inr ?ixs"
    using assms by (simp add: index_set_Inr)
  have d: "distinct ?ixs"
    by (simp add: distinct_product_lists_replicate)
  have s: "set ?ixs = {idx. length idx = nat ndim \<and>
                           (\<forall>i \<in> set idx. 1 \<le> i \<and> i \<le> level + ndim) \<and>
                           level + 1 \<le> sum_list idx \<and> sum_list idx \<le> level + ndim}"
    by (auto simp: set_product_lists_replicate)
  from r d s show ?thesis by blast
qed

theorem index_set_characterisation_witness:
  "(1::int) \<le> 2 \<and> (1::int) \<le> 1 \<and>
   (\<exists>ixs. index_set 2 1 = Inr ixs \<and> distinct ixs \<and> [1, 2] \<in> set ixs \<and> [1, 3] \<notin> set ixs)"
  using index_set_characterisation [of 2 1] by auto


lemma filter_upto_last: "1 \<le> n \<Longrightarrow> filter (\<lambda>i. n \<le> i \<and> i \<le> n) [1..n] = [n]"
proof -
  assume "1 \<le> n"
  then have "[1..n] = [1..n - 1] @ [n]" by (simp add: upto_rec2)
  then show ?thesis by (auto simp: filter_empty_conv)
qed

text \<open>
  C5 as specified does not hold: \<^verbatim>\<open>index_set(2, 3)\<close> does not have 4 elements, and
  \<^verbatim>\<open>index_set(1, 3)\<close> is not the single index \<open>(3,)\<close>.
\<close>

theorem index_set_size_counterexample:
  "map_sum id length (index_set 2 3) \<noteq> Inr 4 \<and> index_set 1 3 \<noteq> Inr [[3]]"
  by (simp add: index_set_def product_repeat_def upto_rec1 numeral_2_eq_2)

text \<open>
  C5, amended. \<^verbatim>\<open>index_set(2, 3)\<close> has exactly 7 elements (the pairs from \<open>[1, 5]\<close>
  with sum 4 or 5), and for every \<open>L \<ge> 1\<close>, \<^verbatim>\<open>index_set(1, L)\<close> is the single index
  \<open>(L + 1,)\<close>.
\<close>

theorem index_set_examples:
  "map_sum id length (index_set 2 3) = Inr 7 \<and>
   (\<forall>L. 1 \<le> L \<longrightarrow> index_set 1 L = Inr [[L + 1]])"
proof
  show "map_sum id length (index_set 2 3) = Inr 7"
    by (simp add: index_set_def product_repeat_def upto_rec1 numeral_2_eq_2)
next
  show "\<forall>L. 1 \<le> L \<longrightarrow> index_set 1 L = Inr [[L + 1]]"
  proof (intro allI impI)
    fix L :: int assume L: "1 \<le> L"
    have "filter (\<lambda>idx. L + 1 \<le> sum_list idx \<and> sum_list idx \<le> L + 1) (map (\<lambda>x. [x]) [1..L + 1])
          = map (\<lambda>x. [x]) (filter (\<lambda>i. L + 1 \<le> i \<and> i \<le> L + 1) [1..L + 1])"
      by (simp add: filter_map comp_def)
    with L show "index_set 1 L = Inr [[L + 1]]"
      by (simp add: index_set_Inr filter_upto_last)
  qed
qed

theorem index_set_examples_witness:
  "(1::int) \<le> 3 \<and> index_set 1 3 = Inr [[4]]"
  using index_set_examples by simp

subsection \<open>The growth rule\<close>

text \<open>
  C4. \<^verbatim>\<open>closed_non_linear_growth_rule\<close> returns 1 for level 1 and \<open>2 ^ (level - 1) + 1\<close>
  for every level from 2 on (3, 5 and 9 for the levels 2, 3 and 4), and raises
  \<^verbatim>\<open>ValueError\<close> for every level below 1.
\<close>

theorem growth_rule_values:
  "closed_non_linear_growth_rule 1 = Inr 1 \<and>
   closed_non_linear_growth_rule 2 = Inr 3 \<and>
   closed_non_linear_growth_rule 3 = Inr 5 \<and>
   closed_non_linear_growth_rule 4 = Inr 9 \<and>
   (\<forall>level. 2 \<le> level \<longrightarrow>
      closed_non_linear_growth_rule level = Inr (2 ^ nat (level - 1) + 1)) \<and>
   (\<forall>level. level < 1 \<longrightarrow>
      closed_non_linear_growth_rule level =
        Inl (ValueError ''Level must be >= 1 for Sparse Grid.''))"
  by (simp add: closed_non_linear_growth_rule_def)

theorem growth_rule_values_witness:
  "(2::int) \<le> 6 \<and> closed_non_linear_growth_rule 6 = Inr 33 \<and>
   (0::int) < 1 \<and> (\<exists>msg. closed_non_linear_growth_rule 0 = Inl (ValueError msg)) \<and>
   (- 3::int) < 1 \<and> (\<exists>msg. closed_non_linear_growth_rule (- 3) = Inl (ValueError msg))"
  using growth_rule_values by simp

text \<open>
  C6 as specified does not hold: the growth rule does not yield point count 1 at
  level 2.
\<close>

theorem level_two_point_count_counterexample:
  "closed_non_linear_growth_rule 2 \<noteq> Inr 1"
  by (simp add: closed_non_linear_growth_rule_def)

text \<open>
  C6, amended. The growth rule yields point count 1 at level 1 and point count 3 at
  level 2, so the one-dimensional rule at level 1 is the provider's rule for one point
  and the rule at level 2 is the provider's rule for three points.
\<close>

theorem level_one_two_point_counts:
  "closed_non_linear_growth_rule 1 = Inr 1 \<and>
   closed_non_linear_growth_rule 2 = Inr 3 \<and>
   clenshaw_curtis_rule make_cc 1 = make_cc 1 \<and>
   clenshaw_curtis_rule make_cc 2 = make_cc 3"
  by (simp add: clenshaw_curtis_rule_def closed_non_linear_growth_rule_def)

subsection \<open>Precondition checks of the tensor rule\<close>

text \<open>
  C10. The domain check comes before the type check: whenever \<open>a < b\<close> fails, the call
  raises the \<^verbatim>\<open>ValueError\<close> of the domain check also when an endpoint is not an
  \<^verbatim>\<open>int\<close>, for instance for \<open>a = 1.5\<close>, \<open>b = 0.5\<close>.
\<close>

theorem domain_check_first:
  assumes "\<not> num_lt a b" and "\<not> (is_int a \<and> is_int b)"
  shows "tensor_product_rule indices one_d_rule a b =
           Inl (ValueError ''Empty interval. Check if a < b...!'')"
  using assms by (simp add: tensor_product_rule_def)

theorem domain_check_first_witness:
  "\<not> num_lt (PyFloat 1.5) (PyFloat 0.5) \<and> \<not> (is_int (PyFloat 1.5) \<and> is_int (PyFloat 0.5)) \<and>
   tensor_product_rule [1] cc_table (PyFloat 1.5) (PyFloat 0.5) =
     Inl (ValueError ''Empty interval. Check if a < b...!'')"
  using domain_check_first [of "PyFloat 1.5" "PyFloat 0.5" "[1]" cc_table]
  by (simp add: num_lt_def)


subsection \<open>The signed binomial weights add up to one\<close>

lemma psi_shift: "psi d q (i + s) = psi d (q - i) s"
  by (simp add: psi_def algebra_simps)

lemma psi_pascal:
  assumes "1 \<le> d"
  shows "psi (Suc d) q s = psi d q s - psi d (q - 1) s"
proof -
  from assms obtain d' where d: "d = Suc d'" by (cases d) auto
  consider "s < q" | "s = q" | "q < s" by linarith
  then show ?thesis
  proof cases
    case 1
    define k where "k = nat (q - 1 - s)"
    with 1 have k: "nat (q - s) = Suc k" "nat (q - 1 - s) = k" by simp_all
    with 1 show ?thesis by (simp add: psi_def d algebra_simps)
  next
    case 2
    then show ?thesis by (simp add: psi_def)
  next
    case 3
    then show ?thesis by (simp add: psi_def)
  qed
qed

lemma sum_list_concat_map:
  fixes xss :: "'b::comm_monoid_add list list"
  shows "sum_list (concat xss) = sum_list (map sum_list xss)"
  by (induction xss) simp_all

lemma sum_list_product_lists_Cons:
  fixes F :: "'a list \<Rightarrow> 'b::comm_monoid_add"
  shows "sum_list (map F (product_lists (xs # xss))) =
         sum_list (map (\<lambda>x. sum_list (map (\<lambda>ys. F (x # ys)) (product_lists xss))) xs)"
  by (simp add: sum_list_concat_map map_concat comp_def)

lemma telescope_upto:
  fixes F :: "int \<Rightarrow> int"
  shows "sum_list (map (\<lambda>i. F (q - i) - F (q - 1 - i)) [1..int n]) = F (q - 1) - F (q - 1 - int n)"
proof (induction n)
  case 0
  show ?case by simp
next
  case (Suc n)
  have "[1..int (Suc n)] = [1..int n] @ [int n + 1]"
    by (simp add: upto_rec2 add.commute)
  then show ?case using Suc.IH by (simp add: algebra_simps)
qed

lemma sum_list_indicator_upto:
  "sum_list (map (\<lambda>i. if i = q then 1 else 0) [1..N]) = (if 1 \<le> q \<and> q \<le> N then (1::int) else 0)"
proof -
  have "sum_list (map (\<lambda>i. if i = q then 1 else 0) [1..N]) = (\<Sum>i\<in>{1..N}. if i = q then (1::int) else 0)"
    by (simp add: interv_sum_list_conv_sum_set_int)
  also have "\<dots> = (if 1 \<le> q \<and> q \<le> N then 1 else 0)"
    by (simp add: sum.delta)
  finally show ?thesis .
qed

lemma psi_one: "psi (Suc 0) q s = (if s = q then 1 else 0)"
  by (auto simp: psi_def binomial_eq_0_iff)

lemma coeff_total_one:
  "q \<le> N \<Longrightarrow> coeff_total N (Suc 0) q = (if 1 \<le> q then 1 else 0)"
  by (simp add: coeff_total_def comp_def psi_one sum_list_indicator_upto)

lemma coeff_total_Suc:
  assumes "1 \<le> d" and "0 \<le> N"
  shows "coeff_total N (Suc d) q = coeff_total N d (q - 1) - coeff_total N d (q - 1 - N)"
proof -
  let ?P = "product_lists (replicate d [1..N])"
  have "coeff_total N (Suc d) q =
        sum_list (map (\<lambda>i. sum_list (map (\<lambda>ys. psi (Suc d) q (i + sum_list ys)) ?P)) [1..N])"
    by (simp add: coeff_total_def sum_list_product_lists_Cons del: product_lists.simps)
  also have "\<dots> = sum_list (map (\<lambda>i. coeff_total N d (q - i) - coeff_total N d (q - 1 - i)) [1..N])"
  proof -
    have "sum_list (map (\<lambda>ys. psi (Suc d) q (i + sum_list ys)) ?P) =
          coeff_total N d (q - i) - coeff_total N d (q - 1 - i)" for i
      using assms(1)
      by (simp add: coeff_total_def psi_shift psi_pascal sum_list_subtractf algebra_simps)
    then show ?thesis by simp
  qed
  also have "\<dots> = coeff_total N d (q - 1) - coeff_total N d (q - 1 - N)"
    using telescope_upto [of "coeff_total N d" q "nat N"] assms(2) by simp
  finally show ?thesis .
qed

lemma coeff_total_value:
  assumes "1 \<le> d" and "0 \<le> N" and "q \<le> N + int d - 1"
  shows "coeff_total N d q = (if int d \<le> q then 1 else 0)"
  using assms
proof (induction d arbitrary: q rule: nat_induct_at_least)
  case base
  then show ?case by (simp add: coeff_total_one)
next
  case (Suc d)
  have a: "coeff_total N d (q - 1) = (if int d \<le> q - 1 then 1 else 0)"
    using Suc.prems by (intro Suc.IH) simp_all
  have b: "coeff_total N d (q - 1 - N) = (if int d \<le> q - 1 - N then 1 else 0)"
    using Suc.prems by (intro Suc.IH) simp_all
  from Suc.hyps Suc.prems show ?case
    by (simp add: coeff_total_Suc a b)
qed

subsection \<open>The tensor rule on integer bounds\<close>

lemma collect_map_Inr:
  "\<forall>l \<in> set ls. r l = Inr (v l) \<Longrightarrow> collect (map (\<lambda>l. map_sum id f (r l)) ls) = Inr (map (\<lambda>l. f (v l)) ls)"
  by (induction ls) simp_all

lemma product_lists_eq_Nil_iff: "product_lists xss = [] \<longleftrightarrow> [] \<in> set xss"
  by (induction xss) auto

lemma sum_list_prod_product_lists:
  fixes xss :: "real list list"
  shows "sum_list (map prod_list (product_lists xss)) = prod_list (map sum_list xss)"
proof (induction xss)
  case Nil
  show ?case by simp
next
  case (Cons xs xss)
  have "sum_list (map prod_list (product_lists (xs # xss))) =
        sum_list (map (\<lambda>x. x * sum_list (map prod_list (product_lists xss))) xs)"
    by (simp add: sum_list_concat_map map_concat comp_def sum_list_const_mult)
  also have "\<dots> = sum_list xs * prod_list (map sum_list xss)"
    by (simp add: Cons.IH sum_list_mult_const)
  finally show ?case by simp
qed

lemma length_product_lists_cong:
  "map length xss = map length yss \<Longrightarrow> length (product_lists xss) = length (product_lists yss)"
  by (simp add: length_product_lists)

lemma tensor_product_rule_Inr:
  assumes ab: "a < b"
    and rules: "\<forall>l \<in> set indices. one_d_rule l = Inr (nodes l, weights l)"
    and ne: "\<forall>l \<in> set indices. weights l \<noteq> []"
  shows "tensor_product_rule indices one_d_rule (PyInt a) (PyInt b) =
         Inr (map (map (\<lambda>x. (real_of_int b - real_of_int a) / 2 * x
                             + (real_of_int a + real_of_int b) / 2))
                (product_lists (map nodes indices)),
              map (\<lambda>w. w * ((real_of_int b - real_of_int a) / 2) ^ length indices)
                (map prod_list (product_lists (map weights indices))))"
proof -
  have p: "collect (map (\<lambda>l. map_sum id fst (one_d_rule l)) indices) = Inr (map nodes indices)"
    using collect_map_Inr [of indices one_d_rule "\<lambda>l. (nodes l, weights l)" fst] rules by simp
  have w: "collect (map (\<lambda>l. map_sum id snd (one_d_rule l)) indices) = Inr (map weights indices)"
    using collect_map_Inr [of indices one_d_rule "\<lambda>l. (nodes l, weights l)" snd] rules by simp
  have n: "product_lists (map weights indices) \<noteq> []"
    using ne by (auto simp: product_lists_eq_Nil_iff)
  show ?thesis
  proof (cases "a = - 1 \<and> b = 1")
    case True
    then show ?thesis
      using n by (simp add: tensor_product_rule_def num_lt_def p w prod_rows_def)
  next
    case False
    then have "\<not> (real_of_int a = - 1 \<and> real_of_int b = 1)"
      by (metis of_int_1 of_int_eq_iff of_int_minus)
    then show ?thesis
      using ab n by (simp add: tensor_product_rule_def num_lt_def p w prod_rows_def)
  qed
qed

lemma scaled_weight_sum:
  fixes a b :: int
  assumes "\<forall>l \<in> set indices. sum_list (weights l) = (2::real)"
  shows "sum_list (map (\<lambda>w. w * ((real_of_int b - real_of_int a) / 2) ^ length indices)
                (map prod_list (product_lists (map weights indices))))
         = (real_of_int b - real_of_int a) ^ length indices"
proof -
  have "map sum_list (map weights indices) = replicate (length indices) 2"
    using assms by (induction indices) simp_all
  then have "sum_list (map prod_list (product_lists (map weights indices))) = 2 ^ length indices"
    by (simp add: sum_list_prod_product_lists)
  then have "sum_list (map (\<lambda>w. w * ((real_of_int b - real_of_int a) / 2) ^ length indices)
                (map prod_list (product_lists (map weights indices))))
             = 2 ^ length indices * ((real_of_int b - real_of_int a) / 2) ^ length indices"
    by (simp add: sum_list_mult_const comp_def del: map_map)
  also have "\<dots> = (real_of_int b - real_of_int a) ^ length indices"
  proof -
    have "(2::real) * ((real_of_int b - real_of_int a) / 2) = real_of_int b - real_of_int a"
      by simp
    then show ?thesis by (metis power_mult_distrib)
  qed
  finally show ?thesis .
qed


subsection \<open>The accumulation loop over the index set\<close>

lemma sparse_loop_Inr:
  assumes "\<forall>idx \<in> set ixs. smolyak_coeff ndim level idx = Inr (c idx)"
    and "\<forall>idx \<in> set ixs. tensor_product_rule idx (clenshaw_curtis_rule make_cc) a b = Inr (x idx, w idx)
                            \<and> length (x idx) = length (w idx)"
  shows "sparse_loop make_cc ndim level a b acc ixs =
         Inr (fst acc @ concat (map x ixs),
              snd acc @ concat (map (\<lambda>idx. map (\<lambda>wi. real_of_int (c idx) * wi) (w idx)) ixs))"
  using assms
proof (induction ixs arbitrary: acc)
  case Nil
  show ?case by simp
next
  case (Cons idx rest)
  have len: "length (x idx) = length (w idx)" using Cons.prems(2) by simp
  have z: "map (\<lambda>(xi, wi). real_of_int (c idx) * wi) (zip (x idx) (w idx))
           = map (\<lambda>wi. real_of_int (c idx) * wi) (w idx)"
  proof -
    have "map (\<lambda>(xi, wi). real_of_int (c idx) * wi) (zip (x idx) (w idx))
          = map (\<lambda>wi. real_of_int (c idx) * wi) (map snd (zip (x idx) (w idx)))"
      by (simp add: case_prod_beta comp_def)
    with len show ?thesis by simp
  qed
  have f: "map fst (zip (x idx) (w idx)) = x idx" using len by simp
  have c: "smolyak_coeff ndim level idx = Inr (c idx)" using Cons.prems(1) by simp
  have t: "tensor_product_rule idx (clenshaw_curtis_rule make_cc) a b = Inr (x idx, w idx)"
    using Cons.prems(2) by simp
  have step: "sparse_loop make_cc ndim level a b acc (idx # rest) =
        sparse_loop make_cc ndim level a b
          (fst acc @ x idx, snd acc @ map (\<lambda>wi. real_of_int (c idx) * wi) (w idx)) rest"
    by (simp only: sparse_loop.simps c t sum.case prod.case f z)
  have "sparse_loop make_cc ndim level a b
          (fst acc @ x idx, snd acc @ map (\<lambda>wi. real_of_int (c idx) * wi) (w idx)) rest =
        Inr (fst (fst acc @ x idx, snd acc @ map (\<lambda>wi. real_of_int (c idx) * wi) (w idx))
               @ concat (map x rest),
             snd (fst acc @ x idx, snd acc @ map (\<lambda>wi. real_of_int (c idx) * wi) (w idx))
               @ concat (map (\<lambda>idx. map (\<lambda>wi. real_of_int (c idx) * wi) (w idx)) rest))"
    using Cons.prems by (intro Cons.IH) simp_all
  then show ?case unfolding step by simp
qed

lemma sum_list_scaled_rules:
  fixes c :: "'a \<Rightarrow> int" and w :: "'a \<Rightarrow> real list"
  assumes "\<forall>idx \<in> set ixs. sum_list (w idx) = V"
  shows "sum_list (concat (map (\<lambda>idx. map (\<lambda>wi. real_of_int (c idx) * wi) (w idx)) ixs))
         = real_of_int (sum_list (map c ixs)) * V"
  using assms
  by (induction ixs) (simp_all add: sum_list_const_mult algebra_simps)

lemma component_le_sum:
  fixes idx :: "int list"
  assumes "\<forall>i \<in> set idx. 1 \<le> i" and "i \<in> set idx"
  shows "i + int (length idx) - 1 \<le> sum_list idx"
  using assms
proof (induction idx)
  case Nil
  then show ?case by simp
next
  case (Cons j idx)
  have lb: "int (length idx) \<le> sum_list idx"
    using Cons.prems(1) by (induction idx) auto
  show ?case
  proof (cases "i = j")
    case True
    with lb show ?thesis by simp
  next
    case False
    with Cons.prems have "i \<in> set idx" by simp
    with Cons have "i + int (length idx) - 1 \<le> sum_list idx" by simp
    moreover have "1 \<le> j" using Cons.prems(1) by simp
    ultimately show ?thesis by simp
  qed
qed

lemma index_set_member:
  assumes "1 \<le> ndim" and "index_set ndim level = Inr ixs" and "idx \<in> set ixs"
  shows "length idx = nat ndim"
    and "\<forall>i \<in> set idx. 1 \<le> i \<and> i \<le> level + 1"
    and "level + 1 \<le> sum_list idx" and "sum_list idx \<le> level + ndim"
proof -
  have m: "idx \<in> set (filter (\<lambda>idx. level + 1 \<le> sum_list idx \<and> sum_list idx \<le> level + ndim)
            (product_lists (replicate (nat ndim) [1..level + ndim])))"
    using assms by (simp add: index_set_Inr)
  then show len: "length idx = nat ndim" and lo: "level + 1 \<le> sum_list idx"
    and hi: "sum_list idx \<le> level + ndim"
    by (auto simp: set_product_lists_replicate)
  from m have pos: "\<forall>i \<in> set idx. 1 \<le> i"
    by (auto simp: set_product_lists_replicate)
  show "\<forall>i \<in> set idx. 1 \<le> i \<and> i \<le> level + 1"
  proof
    fix i assume i: "i \<in> set idx"
    from component_le_sum [OF pos i] len hi assms(1) have "i \<le> level + 1" by simp
    with pos i show "1 \<le> i \<and> i \<le> level + 1" by simp
  qed
qed

lemma smolyak_coeff_Inr:
  assumes "1 \<le> ndim" and "index_set ndim level = Inr ixs" and "idx \<in> set ixs"
  shows "smolyak_coeff ndim level idx = Inr (psi (nat ndim) (level + ndim) (sum_list idx))"
  using index_set_member(3,4) [OF assms] assms(1)
  by (simp add: smolyak_coeff_def comb_def psi_def nat_diff_distrib)

lemma index_set_nonempty:
  assumes "1 \<le> ndim" and "1 \<le> level" and "index_set ndim level = Inr ixs"
  shows "ixs \<noteq> []"
proof -
  let ?idx = "(level + 1) # replicate (nat ndim - 1) 1"
  have s: "sum_list ?idx = level + ndim" using assms(1) by (simp add: sum_list_replicate)
  have "length ?idx = nat ndim" using assms(1) by simp
  moreover have "set ?idx \<subseteq> set [1..level + ndim]" using assms(1,2) by auto
  ultimately have "?idx \<in> set (product_lists (replicate (nat ndim) [1..level + ndim]))"
    unfolding set_product_lists_replicate by blast
  moreover have "ixs = filter (\<lambda>idx. level + 1 \<le> sum_list idx \<and> sum_list idx \<le> level + ndim)
            (product_lists (replicate (nat ndim) [1..level + ndim]))"
    using assms by (simp add: index_set_Inr)
  ultimately have "?idx \<in> set ixs" using s assms(1) by (simp only: set_filter mem_Collect_eq) simp
  then show ?thesis by auto
qed

lemma coeff_sum_index_set:
  assumes "1 \<le> ndim" and "1 \<le> level" and "index_set ndim level = Inr ixs"
  shows "sum_list (map (\<lambda>idx. psi (nat ndim) (level + ndim) (sum_list idx)) ixs) = 1"
proof -
  let ?P = "product_lists (replicate (nat ndim) [1..level + ndim])"
  let ?q = "level + ndim"
  have ixs: "ixs = filter (\<lambda>idx. level + 1 \<le> sum_list idx \<and> sum_list idx \<le> ?q) ?P"
    using assms by (simp add: index_set_Inr)
  have z: "(if level + 1 \<le> s \<and> s \<le> ?q then psi (nat ndim) ?q s else 0) = psi (nat ndim) ?q s" for s
    using assms(1) by (auto simp: psi_def binomial_eq_0_iff)
  have "sum_list (map (\<lambda>idx. psi (nat ndim) ?q (sum_list idx)) ixs) = coeff_total ?q (nat ndim) ?q"
    unfolding ixs coeff_total_def by (simp add: sum_list_map_filter' z)
  also have "\<dots> = 1"
    using assms by (simp add: coeff_total_value)
  finally show ?thesis .
qed


subsection \<open>Evaluation on the tabulated rules\<close>

lemma cc_rule_1: "clenshaw_curtis_rule cc_table 1 = Inr ([0], [2])"
  by (simp add: clenshaw_curtis_rule_def closed_non_linear_growth_rule_def cc_table_def)

lemma cc_rule_2: "clenshaw_curtis_rule cc_table 2 = Inr ([1, 0, - 1], [1 / 3, 4 / 3, 1 / 3])"
  by (simp add: clenshaw_curtis_rule_def closed_non_linear_growth_rule_def cc_table_def)

lemma sparse_grid_2_1:
  "sparse_grid_nodes_weights cc_table 2 1 (PyInt 0) (PyInt 1) =
     Inr ([[1 / 2, 1 / 2], [1 / 2, 1], [1 / 2, 1 / 2], [1 / 2, 0], [1, 1 / 2], [1 / 2, 1 / 2], [0, 1 / 2]],
          [- 1, 1 / 6, 2 / 3, 1 / 6, 1 / 6, 2 / 3, 1 / 6])"
  by (simp add: sparse_grid_nodes_weights_def index_set_def product_repeat_def upto_rec1
      numeral_2_eq_2 smolyak_coeff_def comb_def tensor_product_rule_def num_lt_def prod_rows_def
      cc_rule_1 cc_rule_2)

lemma collect_total:
  "\<forall>l \<in> set ls. \<exists>v. r l = Inr v \<Longrightarrow> \<exists>vs. collect (map (\<lambda>l. map_sum id f (r l)) ls) = Inr vs"
  by (induction ls) auto

lemma tensor_product_rule_no_check_error:
  assumes "num_lt a b" and "is_int a \<and> is_int b"
    and "\<forall>l \<in> set indices. \<exists>r. one_d_rule l = Inr r"
  shows "tensor_product_rule indices one_d_rule a b = Inl AxisError \<or>
         (\<exists>r. tensor_product_rule indices one_d_rule a b = Inr r)"
proof -
  obtain ps where ps: "collect (map (\<lambda>l. map_sum id fst (one_d_rule l)) indices) = Inr ps"
    using collect_total [OF assms(3), of fst] by blast
  obtain ws where ws: "collect (map (\<lambda>l. map_sum id snd (one_d_rule l)) indices) = Inr ws"
    using collect_total [OF assms(3), of snd] by blast
  show ?thesis
    using assms(1,2) by (simp add: tensor_product_rule_def ps ws prod_rows_def)
qed

lemma sparse_grid_propagates:
  assumes "1 \<le> ndim" and "1 \<le> level"
    and "\<And>idx. tensor_product_rule idx (clenshaw_curtis_rule make_cc) a b = Inl e"
  shows "sparse_grid_nodes_weights make_cc ndim level a b = Inl e"
proof -
  obtain ixs where ixs: "index_set ndim level = Inr ixs"
    using assms(1) by (simp add: index_set_Inr)
  then obtain idx rest where c: "ixs = idx # rest"
    using index_set_nonempty [OF assms(1,2)] by (cases ixs) auto
  have "smolyak_coeff ndim level idx = Inr (psi (nat ndim) (level + ndim) (sum_list idx))"
    using smolyak_coeff_Inr [OF assms(1) ixs] c by simp
  then show ?thesis
    by (simp add: sparse_grid_nodes_weights_def ixs c assms(3))
qed

subsection \<open>The tensor rule\<close>

text \<open>
  C7. For integer bounds \<open>a < b\<close> and a multi-index on whose components the
  one-dimensional rule returns weights that sum to 2, \<^verbatim>\<open>tensor_product_rule\<close> returns the
  Cartesian product of the nodes with every coordinate mapped by
  \<open>x' = (b - a) / 2 * x + (a + b) / 2\<close>, and the products of the weights, each scaled by
  \<open>((b - a) / 2) ^ dim\<close>; these weights sum to \<open>(b - a) ^ dim\<close>, where \<open>dim\<close> is the
  length of the multi-index.
\<close>

theorem tensor_product_rule_mapping:
  assumes "a < b"
    and "\<forall>l \<in> set indices. one_d_rule l = Inr (nodes l, weights l) \<and> sum_list (weights l) = 2"
  shows "\<exists>grid wts.
           tensor_product_rule indices one_d_rule (PyInt a) (PyInt b) = Inr (grid, wts) \<and>
           grid = map (map (\<lambda>x. (real_of_int b - real_of_int a) / 2 * x
                                 + (real_of_int a + real_of_int b) / 2))
                    (product_lists (map nodes indices)) \<and>
           wts = map (\<lambda>w. w * ((real_of_int b - real_of_int a) / 2) ^ length indices)
                   (map prod_list (product_lists (map weights indices))) \<and>
           sum_list wts = (real_of_int b - real_of_int a) ^ length indices"
proof -
  have ne: "\<forall>l \<in> set indices. weights l \<noteq> []"
  proof
    fix l assume "l \<in> set indices"
    with assms(2) have "sum_list (weights l) = 2" by simp
    then show "weights l \<noteq> []" by auto
  qed
  have r: "\<forall>l \<in> set indices. one_d_rule l = Inr (nodes l, weights l)"
    using assms(2) by simp
  have s: "\<forall>l \<in> set indices. sum_list (weights l) = 2"
    using assms(2) by simp
  show ?thesis
    using tensor_product_rule_Inr [OF assms(1) r ne] scaled_weight_sum [OF s, of b a]
    by simp
qed

theorem tensor_product_rule_mapping_witness:
  "(0::int) < 2 \<and>
   clenshaw_curtis_rule cc_table 1 = Inr ([0], [2]) \<and>
   clenshaw_curtis_rule cc_table 2 = Inr ([1, 0, - 1], [1 / 3, 4 / 3, 1 / 3]) \<and>
   (\<exists>grid wts.
      tensor_product_rule [1, 2] (clenshaw_curtis_rule cc_table) (PyInt 0) (PyInt 2) = Inr (grid, wts) \<and>
      grid = [[1, 2], [1, 1], [1, 0]] \<and> wts = [2 / 3, 8 / 3, 2 / 3] \<and> sum_list wts = 4)"
proof -
  have h: "\<forall>l \<in> set [1, 2::int].
             clenshaw_curtis_rule cc_table l =
               Inr ((\<lambda>l. if l = 1 then [0] else [1, 0, - 1]) l,
                    (\<lambda>l. if l = 1 then [2] else [1 / 3, 4 / 3, 1 / 3]) l) \<and>
             sum_list ((\<lambda>l. if l = 1 then [2] else [1 / 3, 4 / 3, 1 / 3::real]) l) = 2"
    by (simp add: cc_rule_1 cc_rule_2)
  have ab: "(0::int) < 2" by simp
  show ?thesis
    using tensor_product_rule_mapping [OF ab h] cc_rule_1 cc_rule_2 by simp
qed

text \<open>
  C9. \<^verbatim>\<open>tensor_product_rule\<close> raises the \<^verbatim>\<open>ValueError\<close> of the domain check whenever
  \<open>a < b\<close> fails, and the \<^verbatim>\<open>TypeError\<close> of the type check whenever \<open>a < b\<close> holds and an
  endpoint is not an \<^verbatim>\<open>int\<close>, whatever the one-dimensional rule would do (it is not
  called); for integer \<open>a < b\<close> and a one-dimensional rule that returns, neither a
  \<^verbatim>\<open>ValueError\<close> nor a \<^verbatim>\<open>TypeError\<close> is raised. \<^verbatim>\<open>sparse_grid_nodes_weights\<close> does not
  catch the two exceptions: for \<open>ndim \<ge> 1\<close> and \<open>level \<ge> 1\<close> they reach its caller.
\<close>

theorem tensor_product_rule_checks:
  "(\<not> num_lt a b \<longrightarrow>
      tensor_product_rule indices one_d_rule a b =
        Inl (ValueError ''Empty interval. Check if a < b...!'')) \<and>
   (num_lt a b \<and> \<not> (is_int a \<and> is_int b) \<longrightarrow>
      tensor_product_rule indices one_d_rule a b =
        Inl (TypeError ''Interval boundaries need to be integers.'')) \<and>
   (num_lt a b \<and> is_int a \<and> is_int b \<and> (\<forall>l \<in> set indices. \<exists>r. one_d_rule l = Inr r) \<longrightarrow>
      (\<forall>msg. tensor_product_rule indices one_d_rule a b \<noteq> Inl (ValueError msg) \<and>
             tensor_product_rule indices one_d_rule a b \<noteq> Inl (TypeError msg))) \<and>
   (1 \<le> ndim \<and> 1 \<le> level \<and> \<not> num_lt a b \<longrightarrow>
      sparse_grid_nodes_weights make_cc ndim level a b =
        Inl (ValueError ''Empty interval. Check if a < b...!'')) \<and>
   (1 \<le> ndim \<and> 1 \<le> level \<and> num_lt a b \<and> \<not> (is_int a \<and> is_int b) \<longrightarrow>
      sparse_grid_nodes_weights make_cc ndim level a b =
        Inl (TypeError ''Interval boundaries need to be integers.''))"
proof (intro conjI impI)
  assume "\<not> num_lt a b"
  then show "tensor_product_rule indices one_d_rule a b =
        Inl (ValueError ''Empty interval. Check if a < b...!'')"
    by (simp add: tensor_product_rule_def)
next
  assume "num_lt a b \<and> \<not> (is_int a \<and> is_int b)"
  then show "tensor_product_rule indices one_d_rule a b =
        Inl (TypeError ''Interval boundaries need to be integers.'')"
    by (simp add: tensor_product_rule_def)
next
  assume h: "num_lt a b \<and> is_int a \<and> is_int b \<and> (\<forall>l \<in> set indices. \<exists>r. one_d_rule l = Inr r)"
  then have "tensor_product_rule indices one_d_rule a b = Inl AxisError \<or>
         (\<exists>r. tensor_product_rule indices one_d_rule a b = Inr r)"
    by (intro tensor_product_rule_no_check_error) simp_all
  then show "\<forall>msg. tensor_product_rule indices one_d_rule a b \<noteq> Inl (ValueError msg) \<and>
             tensor_product_rule indices one_d_rule a b \<noteq> Inl (TypeError msg)"
    by auto
next
  assume h: "1 \<le> ndim \<and> 1 \<le> level \<and> \<not> num_lt a b"
  then have "\<And>idx. tensor_product_rule idx (clenshaw_curtis_rule make_cc) a b =
        Inl (ValueError ''Empty interval. Check if a < b...!'')"
    by (simp add: tensor_product_rule_def)
  with h show "sparse_grid_nodes_weights make_cc ndim level a b =
        Inl (ValueError ''Empty interval. Check if a < b...!'')"
    by (intro sparse_grid_propagates) simp_all
next
  assume h: "1 \<le> ndim \<and> 1 \<le> level \<and> num_lt a b \<and> \<not> (is_int a \<and> is_int b)"
  then have "\<And>idx. tensor_product_rule idx (clenshaw_curtis_rule make_cc) a b =
        Inl (TypeError ''Interval boundaries need to be integers.'')"
    by (simp add: tensor_product_rule_def)
  with h show "sparse_grid_nodes_weights make_cc ndim level a b =
        Inl (TypeError ''Interval boundaries need to be integers.'')"
    by (intro sparse_grid_propagates) simp_all
qed

theorem tensor_product_rule_checks_witness:
  "\<not> num_lt (PyInt 1) (PyInt 0) \<and>
   tensor_product_rule [1] (clenshaw_curtis_rule cc_table) (PyInt 1) (PyInt 0) =
     Inl (ValueError ''Empty interval. Check if a < b...!'') \<and>
   sparse_grid_nodes_weights cc_table 2 1 (PyInt 1) (PyInt 0) =
     Inl (ValueError ''Empty interval. Check if a < b...!'') \<and>
   num_lt (PyFloat 0.5) (PyInt 1) \<and> \<not> (is_int (PyFloat 0.5) \<and> is_int (PyInt 1)) \<and>
   tensor_product_rule [1] (clenshaw_curtis_rule cc_table) (PyFloat 0.5) (PyInt 1) =
     Inl (TypeError ''Interval boundaries need to be integers.'') \<and>
   sparse_grid_nodes_weights cc_table 2 1 (PyFloat 0.5) (PyInt 1) =
     Inl (TypeError ''Interval boundaries need to be integers.'') \<and>
   num_lt (PyInt 0) (PyInt 1) \<and> is_int (PyInt 0) \<and> is_int (PyInt 1) \<and>
   clenshaw_curtis_rule cc_table 1 = Inr ([0], [2]) \<and>
   tensor_product_rule [1] (clenshaw_curtis_rule cc_table) (PyInt 0) (PyInt 1) \<noteq>
     Inl (ValueError ''Empty interval. Check if a < b...!'') \<and>
   tensor_product_rule [1] (clenshaw_curtis_rule cc_table) (PyInt 0) (PyInt 1) \<noteq>
     Inl (TypeError ''Interval boundaries need to be integers.'')"
  using tensor_product_rule_checks [of "PyInt 1" "PyInt 0" "[1]" "clenshaw_curtis_rule cc_table" 2 1 cc_table]
    tensor_product_rule_checks [of "PyFloat 0.5" "PyInt 1" "[1]" "clenshaw_curtis_rule cc_table" 2 1 cc_table]
    tensor_product_rule_checks [of "PyInt 0" "PyInt 1" "[1]" "clenshaw_curtis_rule cc_table" 2 1 cc_table]
  by (simp add: num_lt_def cc_rule_1)

subsection \<open>The Smolyak combination\<close>

text \<open>
  C3. For \<open>ndim \<ge> 1\<close>, \<open>level \<ge> 1\<close> and every multi-index \<open>idx\<close> of the index set, with
  \<open>s\<close> the sum of \<open>idx\<close>: the difference \<open>level + ndim - s\<close> lies in \<open>[0, ndim - 1]\<close>, the
  coefficient is \<open>(-1) ^ (level + ndim - s) * C(ndim - 1, level + ndim - s)\<close>, and the
  loop appends the weights of the tensor rule of \<open>idx\<close>, each multiplied by it.
\<close>

theorem smolyak_coefficient_formula:
  assumes "1 \<le> ndim" and "1 \<le> level" and "index_set ndim level = Inr ixs" and "idx \<in> set ixs"
  shows "0 \<le> level + ndim - sum_list idx \<and> level + ndim - sum_list idx \<le> ndim - 1 \<and>
         smolyak_coeff ndim level idx =
           Inr ((- 1) ^ nat (level + ndim - sum_list idx)
                * int (nat (ndim - 1) choose nat (level + ndim - sum_list idx))) \<and>
         (\<forall>x w acc rest.
            tensor_product_rule idx (clenshaw_curtis_rule make_cc) a b = Inr (x, w) \<longrightarrow>
            sparse_loop make_cc ndim level a b acc (idx # rest) =
              sparse_loop make_cc ndim level a b
                (fst acc @ map fst (zip x w),
                 snd acc @ map (\<lambda>(xi, wi).
                     real_of_int ((- 1) ^ nat (level + ndim - sum_list idx)
                       * int (nat (ndim - 1) choose nat (level + ndim - sum_list idx))) * wi)
                   (zip x w))
                rest)"
proof -
  have lo: "level + 1 \<le> sum_list idx" and hi: "sum_list idx \<le> level + ndim"
    using index_set_member(3,4) [OF assms(1,3,4)] by simp_all
  have c: "smolyak_coeff ndim level idx =
           Inr ((- 1) ^ nat (level + ndim - sum_list idx)
                * int (nat (ndim - 1) choose nat (level + ndim - sum_list idx)))"
    using hi assms(1) by (simp add: smolyak_coeff_def comb_def)
  from lo hi c show ?thesis by simp
qed

theorem smolyak_coefficient_formula_witness:
  "(1::int) \<le> 2 \<and> (1::int) \<le> 1 \<and> index_set 2 1 = Inr [[1, 1], [1, 2], [2, 1]] \<and>
   smolyak_coeff 2 1 [1, 1] = Inr (- 1) \<and> smolyak_coeff 2 1 [1, 2] = Inr 1"
proof -
  have i: "index_set 2 1 = Inr [[1, 1], [1, 2], [2, 1]]"
    by (simp add: index_set_def product_repeat_def upto_rec1 numeral_2_eq_2)
  have d: "(1::int) \<le> 2" and l: "(1::int) \<le> 1" by simp_all
  have m1: "[1, 1] \<in> set [[1, 1], [1, 2], [2, 1::int]]" by simp
  have m2: "[1, 2] \<in> set [[1, 1], [1, 2], [2, 1::int]]" by simp
  show ?thesis
    using smolyak_coefficient_formula [OF d l i m1] smolyak_coefficient_formula [OF d l i m2] i
    by simp
qed

text \<open>
  C1. For \<open>ndim \<ge> 1\<close>, \<open>level \<ge> 1\<close> and integer bounds \<open>a < b\<close>: when the
  one-dimensional rule returns, for every level from 1 to \<open>level + 1\<close>, as many nodes as
  weights and weights that sum to 2, \<^verbatim>\<open>sparse_grid_nodes_weights\<close> returns, and the sum
  of all its weights is \<open>(b - a) ^ ndim\<close>, which is 1 on \<open>[0, 1]\<close>.
  Weights may be negative and nodes may repeat: for \<open>ndim = 2\<close>, \<open>level = 1\<close> on
  \<open>[0, 1]\<close> (lemma \<open>sparse_grid_2_1\<close>) the first weight is \<open>-1\<close> and the node
  \<open>(1/2, 1/2)\<close> occurs three times.
\<close>

theorem sparse_grid_weight_sum:
  assumes dim: "1 \<le> ndim" and lev: "1 \<le> level" and ab: "a < b"
    and prov: "\<forall>l. 1 \<le> l \<and> l \<le> level + 1 \<longrightarrow>
             (\<exists>xs ws. clenshaw_curtis_rule make_cc l = Inr (xs, ws) \<and>
                      length xs = length ws \<and> sum_list ws = 2)"
  shows "\<exists>points weights.
           sparse_grid_nodes_weights make_cc ndim level (PyInt a) (PyInt b) = Inr (points, weights) \<and>
           sum_list weights = (real_of_int b - real_of_int a) ^ nat ndim"
proof -
  define nodes where "nodes l = fst (projr (clenshaw_curtis_rule make_cc l))" for l
  define wts where "wts l = snd (projr (clenshaw_curtis_rule make_cc l))" for l
  have rule: "clenshaw_curtis_rule make_cc l = Inr (nodes l, wts l) \<and>
              length (nodes l) = length (wts l) \<and> sum_list (wts l) = 2"
    if "1 \<le> l" and "l \<le> level + 1" for l
    using prov that by (auto simp: nodes_def wts_def)
  obtain ixs where ixs: "index_set ndim level = Inr ixs"
    using dim by (simp add: index_set_Inr)
  define V where "V = (real_of_int b - real_of_int a) ^ nat ndim"
  define x where "x idx = map (map (\<lambda>x. (real_of_int b - real_of_int a) / 2 * x
                             + (real_of_int a + real_of_int b) / 2))
                (product_lists (map nodes idx))" for idx
  define w where "w idx = map (\<lambda>w. w * ((real_of_int b - real_of_int a) / 2) ^ length idx)
                (map prod_list (product_lists (map wts idx)))" for idx
  define c where "c idx = psi (nat ndim) (level + ndim) (sum_list idx)" for idx
  have coeff: "\<forall>idx \<in> set ixs. smolyak_coeff ndim level idx = Inr (c idx)"
    using smolyak_coeff_Inr [OF dim ixs] by (simp add: c_def)
  have tens: "tensor_product_rule idx (clenshaw_curtis_rule make_cc) (PyInt a) (PyInt b) = Inr (x idx, w idx)
              \<and> length (x idx) = length (w idx) \<and> sum_list (w idx) = V"
    if idx: "idx \<in> set ixs" for idx
  proof -
    have comp: "\<forall>l \<in> set idx. 1 \<le> l \<and> l \<le> level + 1"
      using index_set_member(2) [OF dim ixs idx] .
    have len: "length idx = nat ndim"
      using index_set_member(1) [OF dim ixs idx] .
    have r: "\<forall>l \<in> set idx. clenshaw_curtis_rule make_cc l = Inr (nodes l, wts l)"
      using comp rule by blast
    have s: "\<forall>l \<in> set idx. sum_list (wts l) = 2"
      using comp rule by blast
    have ne: "\<forall>l \<in> set idx. wts l \<noteq> []"
    proof
      fix l assume "l \<in> set idx"
      with s have "sum_list (wts l) = 2" by simp
      then show "wts l \<noteq> []" by auto
    qed
    have "map length (map nodes idx) = map length (map wts idx)"
      using comp rule by simp
    then have l: "length (x idx) = length (w idx)"
      by (simp add: x_def w_def length_product_lists_cong)
    show ?thesis
      using tensor_product_rule_Inr [OF ab r ne] scaled_weight_sum [OF s, of b a] l
      by (simp add: x_def w_def V_def len)
  qed
  have t2: "\<forall>idx \<in> set ixs.
              tensor_product_rule idx (clenshaw_curtis_rule make_cc) (PyInt a) (PyInt b) = Inr (x idx, w idx)
              \<and> length (x idx) = length (w idx)"
    using tens by simp
  have sV: "\<forall>idx \<in> set ixs. sum_list (w idx) = V"
    using tens by simp
  have res: "sparse_grid_nodes_weights make_cc ndim level (PyInt a) (PyInt b) =
        Inr (concat (map x ixs),
             concat (map (\<lambda>idx. map (\<lambda>wi. real_of_int (c idx) * wi) (w idx)) ixs))"
    using sparse_loop_Inr [OF coeff t2, of "([], [])"]
    by (simp add: sparse_grid_nodes_weights_def ixs)
  have "c = (\<lambda>idx. psi (nat ndim) (level + ndim) (sum_list idx))"
    by (rule ext) (simp add: c_def)
  then have "sum_list (map c ixs) = 1"
    using coeff_sum_index_set [OF dim lev ixs] by simp
  then have "sum_list (concat (map (\<lambda>idx. map (\<lambda>wi. real_of_int (c idx) * wi) (w idx)) ixs)) = V"
    using sum_list_scaled_rules [OF sV, of c] by simp
  with res show ?thesis by (simp add: V_def)
qed

theorem sparse_grid_weight_sum_witness:
  "(1::int) \<le> 2 \<and> (1::int) \<le> 1 \<and> (0::int) < 1 \<and>
   clenshaw_curtis_rule cc_table 1 = Inr ([0], [2]) \<and>
   clenshaw_curtis_rule cc_table 2 = Inr ([1, 0, - 1], [1 / 3, 4 / 3, 1 / 3]) \<and>
   (\<exists>points weights.
      sparse_grid_nodes_weights cc_table 2 1 (PyInt 0) (PyInt 1) = Inr (points, weights) \<and>
      weights = [- 1, 1 / 6, 2 / 3, 1 / 6, 1 / 6, 2 / 3, 1 / 6] \<and>
      sum_list weights = 1)"
proof -
  have h: "\<forall>l. 1 \<le> l \<and> l \<le> 1 + 1 \<longrightarrow>
             (\<exists>xs ws. clenshaw_curtis_rule cc_table l = Inr (xs, ws) \<and>
                      length xs = length ws \<and> sum_list ws = 2)"
  proof (intro allI impI)
    fix l :: int assume "1 \<le> l \<and> l \<le> 1 + 1"
    then have "l = 1 \<or> l = 2" by arith
    then show "\<exists>xs ws. clenshaw_curtis_rule cc_table l = Inr (xs, ws) \<and>
                      length xs = length ws \<and> sum_list ws = 2"
      by (auto simp: cc_rule_1 cc_rule_2)
  qed
  have d: "(1::int) \<le> 2" and l: "(1::int) \<le> 1" and ab: "(0::int) < 1" by simp_all
  show ?thesis
    using sparse_grid_weight_sum [OF d l ab h] sparse_grid_2_1 cc_rule_1 cc_rule_2 by simp
qed

text \<open>
  C8 as specified does not hold: on \<open>[0, 2]\<close> the rule for \<open>ndim = 1\<close>, \<open>level = 1\<close>
  is not the single node 1 with weight 2.
\<close>

theorem sparse_grid_midpoint_counterexample:
  "sparse_grid_nodes_weights cc_table 1 1 (PyInt 0) (PyInt 2) \<noteq> Inr ([[1]], [2])"
  by (simp add: sparse_grid_nodes_weights_def index_set_def product_repeat_def upto_rec1
      smolyak_coeff_def comb_def tensor_product_rule_def num_lt_def prod_rows_def cc_rule_2)

text \<open>
  C8, amended. The index set for \<open>ndim = 1\<close>, \<open>level = 1\<close> is the single multi-index
  \<open>(2,)\<close>, whose one-dimensional rule has point count 3: when the provider returns for
  three points the nodes \<open>xs\<close> and as many weights \<open>ws\<close>, the sparse grid rule on
  \<open>[0, 2]\<close> has the nodes \<open>x + 1\<close> for \<open>x\<close> in \<open>xs\<close> and the weights \<open>ws\<close> unchanged.
  The single node 1 with weight 2 is the tensor rule of the multi-index \<open>(1,)\<close> on
  \<open>[0, 2]\<close>, when the one-point rule is the node 0 with weight 2.
\<close>

theorem sparse_grid_dim1_level1:
  "(make_cc 3 = Inr (xs, ws) \<and> length xs = length ws \<and> ws \<noteq> [] \<longrightarrow>
      sparse_grid_nodes_weights make_cc 1 1 (PyInt 0) (PyInt 2) = Inr (map (\<lambda>x. [x + 1]) xs, ws)) \<and>
   (make_cc 1 = Inr ([0], [2]) \<longrightarrow>
      tensor_product_rule [1] (clenshaw_curtis_rule make_cc) (PyInt 0) (PyInt 2) = Inr ([[1]], [2]))"
proof (intro conjI impI)
  assume a: "make_cc 3 = Inr (xs, ws) \<and> length xs = length ws \<and> ws \<noteq> []"
  then have r: "clenshaw_curtis_rule make_cc 2 = Inr (xs, ws)"
    by (simp add: clenshaw_curtis_rule_def closed_non_linear_growth_rule_def)
  have i: "index_set 1 1 = Inr [[2]]"
    by (simp add: index_set_def product_repeat_def upto_rec1)
  have p: "product_lists [ws] \<noteq> []" using a by (cases ws) simp_all
  have t: "tensor_product_rule [2] (clenshaw_curtis_rule make_cc) (PyInt 0) (PyInt 2) =
           Inr (map (\<lambda>x. [x + 1]) xs, ws)"
    using p by (simp add: tensor_product_rule_def num_lt_def prod_rows_def r comp_def)
  have c: "\<forall>idx \<in> set [[2::int]]. smolyak_coeff 1 1 idx = Inr ((\<lambda>idx. 1) idx)"
    by (simp add: smolyak_coeff_def comb_def)
  have tl: "\<forall>idx \<in> set [[2::int]].
              tensor_product_rule idx (clenshaw_curtis_rule make_cc) (PyInt 0) (PyInt 2) =
                Inr ((\<lambda>idx. map (\<lambda>x. [x + 1]) xs) idx, (\<lambda>idx. ws) idx) \<and>
              length ((\<lambda>idx. map (\<lambda>x. [x + 1]) xs) idx) = length ((\<lambda>idx. ws) idx)"
    using a t by simp
  show "sparse_grid_nodes_weights make_cc 1 1 (PyInt 0) (PyInt 2) = Inr (map (\<lambda>x. [x + 1]) xs, ws)"
    using sparse_loop_Inr [OF c tl, of "([], [])"]
    by (simp add: sparse_grid_nodes_weights_def i)
next
  assume "make_cc 1 = Inr ([0], [2])"
  then have r: "clenshaw_curtis_rule make_cc 1 = Inr ([0], [2])"
    by (simp add: clenshaw_curtis_rule_def closed_non_linear_growth_rule_def)
  show "tensor_product_rule [1] (clenshaw_curtis_rule make_cc) (PyInt 0) (PyInt 2) = Inr ([[1]], [2])"
    by (simp add: tensor_product_rule_def num_lt_def prod_rows_def r)
qed

theorem sparse_grid_dim1_level1_witness:
  "cc_table 3 = Inr ([1, 0, - 1], [1 / 3, 4 / 3, 1 / 3]) \<and>
   sparse_grid_nodes_weights cc_table 1 1 (PyInt 0) (PyInt 2) =
     Inr ([[2], [1], [0]], [1 / 3, 4 / 3, 1 / 3]) \<and>
   cc_table 1 = Inr ([0], [2]) \<and>
   tensor_product_rule [1] (clenshaw_curtis_rule cc_table) (PyInt 0) (PyInt 2) = Inr ([[1]], [2])"
  using sparse_grid_dim1_level1 [of cc_table "[1, 0, - 1]" "[1 / 3, 4 / 3, 1 / 3]"]
  by (simp add: cc_table_def)

end
